theory Spec2Isabelle
  imports Complex_Main "HOL-Library.Stream"
begin

section \<open>ISS pass predictor: accuracy model and two-phase pass search\<close>

text \<open>
  The development follows \<^verbatim>\<open>src/main.py\<close> (class \<^verbatim>\<open>ISSPassPredictor\<close>).
  Python floats are idealised as \<^typ>\<open>real\<close>: rounding, infinities and NaN are not
  part of the model.
\<close>

subsection \<open>\<^verbatim>\<open>estimate_accuracy\<close>\<close>

text \<open>
  The method returns the pair \<^verbatim>\<open>(error, reliability)\<close>; the reliability is one of six
  string labels.
\<close>

definition estimate_accuracy :: "real \<Rightarrow> real \<times> string" where
  "estimate_accuracy days_from_epoch =
     (if days_from_epoch \<le> 3 then
        (1 + (days_from_epoch / 3) * 4, ''EXCELLENT'')
      else if days_from_epoch \<le> 7 then
        (5 + ((days_from_epoch - 3) / 4) * 15, ''VERY GOOD'')
      else if days_from_epoch \<le> 30 then
        (20 + ((days_from_epoch - 7) / 23) * 80, ''GOOD'')
      else if days_from_epoch \<le> 90 then
        (100 + ((days_from_epoch - 30) / 60) * 400, ''MODERATE'')
      else if days_from_epoch \<le> 180 then
        (500 + ((days_from_epoch - 90) / 90) * 500, ''POOR'')
      else
        (1000 * (1 + (days_from_epoch - 180) / 180), ''VERY POOR''))"

abbreviation error_of :: "real \<Rightarrow> real" where
  "error_of d \<equiv> fst (estimate_accuracy d)"

abbreviation tier_of :: "real \<Rightarrow> string" where
  "tier_of d \<equiv> snd (estimate_accuracy d)"

subsection \<open>Instants and durations\<close>

text \<open>
  A \<^verbatim>\<open>datetime\<close> is an instant with microsecond resolution and a \<^verbatim>\<open>timedelta\<close> a
  whole number of microseconds; both are integers here, instants counted from a fixed
  origin. The calendar range of \<^verbatim>\<open>datetime\<close> (years 1 to 9999) is not modelled, and the
  conversions between the library's time objects and \<^verbatim>\<open>datetime\<close>
  (\<^verbatim>\<open>utc_datetime\<close>, \<^verbatim>\<open>ts.utc\<close>, \<^verbatim>\<open>ts.from_datetimes\<close>) are taken to be exact.
\<close>

type_synonym instant = int
type_synonym timedelta = int

definition timedelta_seconds :: "int \<Rightarrow> timedelta" where
  "timedelta_seconds n = n * 1000000"

definition timedelta_minutes :: "int \<Rightarrow> timedelta" where
  "timedelta_minutes n = n * 60000000"

definition round_half_even :: "real \<Rightarrow> int" where
  "round_half_even x =
     (let f = \<lfloor>x\<rfloor>; r = x - of_int f
      in if r < 1 / 2 then f else if 1 / 2 < r then f + 1 else if even f then f else f + 1)"

text \<open>\<^verbatim>\<open>timedelta(days=x)\<close> for a float \<open>x\<close>: rounded to the nearest microsecond.\<close>

definition timedelta_days :: "real \<Rightarrow> timedelta" where
  "timedelta_days x = round_half_even (x * 86400000000)"

definition total_seconds :: "timedelta \<Rightarrow> real" where
  "total_seconds d = of_int d / 1000000"

text \<open>Python's \<^verbatim>\<open>int\<close> on a float truncates towards zero.\<close>

definition py_int :: "real \<Rightarrow> int" where
  "py_int x = (if 0 \<le> x then \<lfloor>x\<rfloor> else \<lceil>x\<rceil>)"

subsection \<open>The predictor, the propagator and the clock\<close>

text \<open>
  Of the fields of \<^verbatim>\<open>ISSPassPredictor\<close> the search reads \<^verbatim>\<open>max_distance_km\<close> and
  \<^verbatim>\<open>tle_epoch\<close> (set by a successful \<^verbatim>\<open>fetch_tle\<close>, which \<^verbatim>\<open>run_prediction\<close> requires
  before it calls the search). The element lines and the observer's coordinates are
  only handed to the propagation library: \<^verbatim>\<open>(satellite.at(t) - location.at(t)).altaz()\<close>
  is a parameter of the model, a function from the instant to elevation, azimuth and
  slant range.
\<close>

record predictor =
  max_distance_km :: real
  tle_epoch :: instant

record altaz =
  alt_degrees :: real
  az_degrees :: real
  distance_km :: real

type_synonym propagator = "instant \<Rightarrow> altaz"

text \<open>
  The wall clock is the stream of its successive readings; \<^verbatim>\<open>ts.now()\<close> takes the next
  one.
\<close>

type_synonym clock = "instant stream"

definition ts_now :: "clock \<Rightarrow> instant \<times> clock" where
  "ts_now c = (shd c, stl c)"

datatype error = ValueError | AttributeError

record pass =
  start :: instant
  end' :: instant
  closest_time :: instant
  min_distance :: real
  max_altitude :: real
  duration :: real
  error_km :: real
  reliability :: string

subsection \<open>\<^verbatim>\<open>refine_pass_data\<close>\<close>

text \<open>The loop that fills \<^verbatim>\<open>times_list\<close>: \<open>n\<close> instants one second apart.\<close>

fun build_times :: "nat \<Rightarrow> instant \<Rightarrow> instant list" where
  "build_times 0 curr_t = []"
| "build_times (Suc n) curr_t = curr_t # build_times n (curr_t + timedelta_seconds 1)"

text \<open>
  \<^verbatim>\<open>argmin\<close> of the array library: the index of the first occurrence of the least
  element. \<^verbatim>\<open>max\<close>: the greatest element. Both are called on non-empty arrays only.
\<close>

fun argmin :: "real list \<Rightarrow> nat" where
  "argmin [] = 0"
| "argmin [x] = 0"
| "argmin (x # y # ys) = (let j = argmin (y # ys) in if x \<le> (y # ys) ! j then 0 else Suc j)"

fun maximum :: "real list \<Rightarrow> real" where
  "maximum [] = 0"
| "maximum (x # xs) = fold max xs x"

text \<open>
  An empty grid makes the library calls raise (\<^verbatim>\<open>argmin\<close> of an empty sequence at the
  latest): the branch \<open>Inl ValueError\<close>. The method returns \<^verbatim>\<open>None\<close> or a dictionary:
  \<open>Inr None\<close> or \<open>Inr (Some p)\<close>.
\<close>

definition refine_pass_data ::
  "predictor \<Rightarrow> propagator \<Rightarrow> instant \<Rightarrow> instant \<Rightarrow> error + pass option" where
  "refine_pass_data self observe start_time end_time =
     (let t0 = start_time - timedelta_minutes 1;
          t1 = end_time + timedelta_minutes 1;
          duration_seconds = py_int (total_seconds (t1 - t0));
          times = build_times (nat duration_seconds) t0;
          alts = map (\<lambda>t. alt_degrees (observe t)) times;
          dist_km_list = map (\<lambda>t. distance_km (observe t)) times
      in if times = [] then Inl ValueError
         else
           let min_dist_index = argmin dist_km_list;
               min_distance = dist_km_list ! min_dist_index
           in if min_distance > max_distance_km self then Inr None
              else
                let max_alt = maximum alts;
                    closest_t = times ! min_dist_index;
                    duration_sec = (\<Sum>d \<leftarrow> dist_km_list. if d \<le> max_distance_km self then 1 else (0::int));
                    duration_mins = real_of_int duration_sec / 60;
                    days_from_epoch = total_seconds (closest_t - tle_epoch self) / 86400;
                    (error_km, reliability) = estimate_accuracy days_from_epoch
                in Inr (Some \<lparr>start = start_time, end' = end_time, closest_time = closest_t,
                     min_distance = min_distance, max_altitude = max_alt,
                     duration = duration_mins, error_km = error_km,
                     reliability = reliability\<rparr>))"

subsection \<open>\<^verbatim>\<open>calculate_passes\<close>\<close>

text \<open>
  The \<^verbatim>\<open>while\<close> loop of the coarse search, with its variables \<^verbatim>\<open>current\<close>,
  \<^verbatim>\<open>window_start\<close>, \<^verbatim>\<open>in_window\<close> and \<^verbatim>\<open>passes\<close>. A \<^verbatim>\<open>window_start\<close> that is still
  \<^verbatim>\<open>None\<close> when a window closes would fail in \<^verbatim>\<open>refine_pass_data\<close>.
\<close>

function coarse_loop ::
  "predictor \<Rightarrow> propagator \<Rightarrow> instant \<Rightarrow> instant \<Rightarrow> instant option \<Rightarrow> bool \<Rightarrow> pass list
     \<Rightarrow> error + pass list" where
  "coarse_loop self observe end_dt current window_start in_window passes =
     (if current < end_dt then
        (let dist_km = distance_km (observe current);
             next = current + timedelta_minutes 1
         in if dist_km \<le> max_distance_km self then
              (if \<not> in_window then
                 coarse_loop self observe end_dt next (Some current) True passes
               else coarse_loop self observe end_dt next window_start in_window passes)
            else
              (if in_window then
                 (case window_start of
                    None \<Rightarrow> Inl AttributeError
                  | Some ws \<Rightarrow>
                      (case refine_pass_data self observe ws current of
                         Inl e \<Rightarrow> Inl e
                       | Inr precise_pass \<Rightarrow>
                           coarse_loop self observe end_dt next window_start False
                             (case precise_pass of
                                None \<Rightarrow> passes
                              | Some p \<Rightarrow> passes @ [p])))
               else coarse_loop self observe end_dt next window_start in_window passes))
      else Inr passes)"
  by pat_completeness auto
termination
  by (relation "measure (\<lambda>(self, observe, end_dt, current, rest). nat (end_dt - current))")
     (auto simp: timedelta_minutes_def)

declare coarse_loop.simps [simp del]

text \<open>
  The method reads the clock for the start of the horizon and takes the length of the
  horizon, in years, from its caller.
\<close>

definition calculate_passes ::
  "predictor \<Rightarrow> propagator \<Rightarrow> real \<Rightarrow> clock \<Rightarrow> (error + pass list) \<times> clock" where
  "calculate_passes self observe years c =
     (let (start_time, c') = ts_now c;
          end_time = start_time + timedelta_days (365 * years)
      in (coarse_loop self observe end_time start_time None False [], c'))"

subsection \<open>The search as the specification words it\<close>

text \<open>
  The definitions of this subsection are not taken from the source: they say in the
  specification's words what the two phases compute, and the theorems below compare the
  source with them.

  The in-range predicate of both phases: slant range at most \<^verbatim>\<open>max_distance_km\<close>,
  inclusive.
\<close>

definition in_range :: "predictor \<Rightarrow> propagator \<Rightarrow> instant \<Rightarrow> bool" where
  "in_range self observe t \<longleftrightarrow> distance_km (observe t) \<le> max_distance_km self"

text \<open>
  The fine grid of a candidate window \<open>[a, b)\<close>: the window padded by one minute on both
  sides, sampled every second from the padded start, as many whole seconds as the padded
  interval holds.
\<close>

definition fine_grid :: "instant \<Rightarrow> instant \<Rightarrow> instant list" where
  "fine_grid a b =
     map (\<lambda>i. (a - timedelta_minutes 1) + timedelta_seconds (int i))
       [0..<nat (((b + timedelta_minutes 1) - (a - timedelta_minutes 1)) div timedelta_seconds 1)]"

text \<open>The number of fine samples of a window that are in range.\<close>

definition occupancy :: "predictor \<Rightarrow> propagator \<Rightarrow> instant \<Rightarrow> instant \<Rightarrow> nat" where
  "occupancy self observe a b = length (filter (in_range self observe) (fine_grid a b))"

text \<open>The coarse ticks of a horizon: \<open>start\<close>, \<open>start + 1 min\<close>, ... as long as before \<open>end\<close>.\<close>

definition coarse_ticks :: "instant \<Rightarrow> instant \<Rightarrow> instant list" where
  "coarse_ticks start_time end_dt =
     map (\<lambda>k. start_time + timedelta_minutes (int k))
       [0..<nat ((end_dt - start_time + timedelta_minutes 1 - 1) div timedelta_minutes 1)]"

text \<open>
  The coarse scanner as a state machine over the ticks: a boolean in-window state and a
  pending window start; a tick in range while out of a window records the pending start,
  a tick out of range while in a window closes the window \<open>[pending, tick)\<close> and emits it.
\<close>

fun scan_windows ::
  "(instant \<Rightarrow> bool) \<Rightarrow> instant list \<Rightarrow> bool \<Rightarrow> instant option \<Rightarrow> (instant \<times> instant) list" where
  "scan_windows inr [] in_window pending = []"
| "scan_windows inr (t # ts) in_window pending =
     (if inr t then
        (if in_window then scan_windows inr ts True pending
         else scan_windows inr ts True (Some t))
      else
        (if in_window then
           (case pending of
              None \<Rightarrow> scan_windows inr ts False pending
            | Some a \<Rightarrow> (a, t) # scan_windows inr ts False pending)
         else scan_windows inr ts False pending))"

text \<open>
  The candidate windows of a run: the scanner on the ticks of the horizon that starts at
  the clock's reading and is \<open>365 \<cdot> years\<close> days long.
\<close>

abbreviation horizon_windows ::
  "predictor \<Rightarrow> propagator \<Rightarrow> real \<Rightarrow> clock \<Rightarrow> (instant \<times> instant) list" where
  "horizon_windows self observe years c \<equiv>
     scan_windows (in_range self observe)
       (coarse_ticks (shd c) (shd c + timedelta_days (365 * years))) False None"

text \<open>The fine refiner on a window, as an optional pass.\<close>

definition refine_window :: "predictor \<Rightarrow> propagator \<Rightarrow> instant \<times> instant \<Rightarrow> pass option" where
  "refine_window self observe w =
     (case refine_pass_data self observe (fst w) (snd w) of Inl e \<Rightarrow> None | Inr r \<Rightarrow> r)"

subsection \<open>Concrete runs\<close>

text \<open>
  A predictor with the source's threshold of 1000 km, and three synthetic propagators.
  The first is in range at the single instant 0, exactly at the threshold. The second
  has its closest approach 30 s after a coarse tick at which it is out of range, between
  two ticks at which it is in range. The third is in range at instant 0 and again from
  the tick at 120 s to the end of the horizon.
\<close>

definition ex_self :: predictor where
  "ex_self = \<lparr>max_distance_km = 1000, tle_epoch = 0\<rparr>"

definition ex_observe :: propagator where
  "ex_observe t = \<lparr>alt_degrees = 10, az_degrees = 0,
     distance_km = (if t = 0 then 1000 else 2000)\<rparr>"

definition ex_pass :: pass where
  "ex_pass = \<lparr>start = 0, end' = 60000000, closest_time = 0, min_distance = 1000,
     max_altitude = 10, duration = 1 / 60, error_km = 1, reliability = ''EXCELLENT''\<rparr>"

definition ex_observe2 :: propagator where
  "ex_observe2 t = \<lparr>alt_degrees = 45, az_degrees = 0,
     distance_km = (if t = 90000000 then 100
                    else if t = 0 \<or> t = 120000000 then 900 else 2000)\<rparr>"

definition ex_pass2a :: pass where
  "ex_pass2a = \<lparr>start = 0, end' = 60000000, closest_time = 90000000, min_distance = 100,
     max_altitude = 45, duration = 1 / 30, error_km = 721 / 720,
     reliability = ''EXCELLENT''\<rparr>"

definition ex_pass2b :: pass where
  "ex_pass2b = \<lparr>start = 120000000, end' = 180000000, closest_time = 90000000,
     min_distance = 100, max_altitude = 45, duration = 1 / 30, error_km = 721 / 720,
     reliability = ''EXCELLENT''\<rparr>"

definition ex_observe3 :: propagator where
  "ex_observe3 t = \<lparr>alt_degrees = 45, az_degrees = 0,
     distance_km = (if t = 0 then 500 else if 120000000 \<le> t then 700 else 2000)\<rparr>"

definition ex_pass3 :: pass where
  "ex_pass3 = \<lparr>start = 0, end' = 60000000, closest_time = 0, min_distance = 500,
     max_altitude = 45, duration = 1 / 60, error_km = 1, reliability = ''EXCELLENT''\<rparr>"

section \<open>Properties of the accuracy model\<close>


lemma error_of_mono: "d1 \<le> d2 \<Longrightarrow> error_of d1 \<le> error_of d2"
  by (auto simp: estimate_accuracy_def diff_divide_distrib)

lemma error_of_slope: "x \<le> y \<Longrightarrow> error_of y - error_of x \<le> 7 * (y - x)"
  by (auto simp: estimate_accuracy_def diff_divide_distrib)

lemma error_of_lipschitz: "\<bar>error_of x - error_of y\<bar> \<le> 7 * \<bar>x - y\<bar>"
proof (cases "x \<le> y")
  case True
  with error_of_slope[of x y] error_of_mono[of x y] show ?thesis by simp
next
  case False
  with error_of_slope[of y x] error_of_mono[of y x] show ?thesis by simp
qed

lemma error_of_isCont: "isCont error_of b"
  unfolding isCont_def LIM_def
proof (intro allI impI)
  fix e :: real
  assume "0 < e"
  show "\<exists>s>0. \<forall>x. x \<noteq> b \<and> dist x b < s \<longrightarrow> dist (error_of x) (error_of b) < e"
  proof (intro exI[of _ "e / 7"] conjI allI impI)
    show "0 < e / 7" using \<open>0 < e\<close> by simp
  next
    fix x :: real
    assume "x \<noteq> b \<and> dist x b < e / 7"
    then have "7 * \<bar>x - b\<bar> < e" by (simp add: dist_real_def)
    with error_of_lipschitz[of x b] show "dist (error_of x) (error_of b) < e"
      by (simp add: dist_real_def)
  qed
qed

text \<open>
  C4. For every input \<open>d\<close>, \<open>estimate_accuracy\<close> returns the value of the six-row table:
  \<open>1 + (d/3)\<cdot>4\<close> and EXCELLENT for \<open>d \<le> 3\<close>; \<open>5 + ((d-3)/4)\<cdot>15\<close> and VERY GOOD for
  \<open>3 < d \<le> 7\<close>; \<open>20 + ((d-7)/23)\<cdot>80\<close> and GOOD for \<open>7 < d \<le> 30\<close>;
  \<open>100 + ((d-30)/60)\<cdot>400\<close> and MODERATE for \<open>30 < d \<le> 90\<close>; \<open>500 + ((d-90)/90)\<cdot>500\<close> and
  POOR for \<open>90 < d \<le> 180\<close>; \<open>1000\<cdot>(1 + (d-180)/180)\<close> and VERY POOR for \<open>d > 180\<close>. The
  tiers are the string labels the method returns.
\<close>

theorem estimate_accuracy_table:
  "(d \<le> 3 \<longrightarrow> estimate_accuracy d = (1 + (d / 3) * 4, ''EXCELLENT'')) \<and>
   (3 < d \<and> d \<le> 7 \<longrightarrow> estimate_accuracy d = (5 + ((d - 3) / 4) * 15, ''VERY GOOD'')) \<and>
   (7 < d \<and> d \<le> 30 \<longrightarrow> estimate_accuracy d = (20 + ((d - 7) / 23) * 80, ''GOOD'')) \<and>
   (30 < d \<and> d \<le> 90 \<longrightarrow> estimate_accuracy d = (100 + ((d - 30) / 60) * 400, ''MODERATE'')) \<and>
   (90 < d \<and> d \<le> 180 \<longrightarrow> estimate_accuracy d = (500 + ((d - 90) / 90) * 500, ''POOR'')) \<and>
   (180 < d \<longrightarrow> estimate_accuracy d = (1000 * (1 + (d - 180) / 180), ''VERY POOR''))"
  by (simp add: estimate_accuracy_def)

theorem estimate_accuracy_table_witness:
  "estimate_accuracy (3 / 2) = (3, ''EXCELLENT'') \<and>
   estimate_accuracy 5 = (25 / 2, ''VERY GOOD'') \<and>
   estimate_accuracy 30 = (100, ''GOOD'') \<and>
   estimate_accuracy 60 = (300, ''MODERATE'') \<and>
   estimate_accuracy 135 = (750, ''POOR'') \<and>
   estimate_accuracy 360 = (2000, ''VERY POOR'')"
  using estimate_accuracy_table[of "3 / 2"] estimate_accuracy_table[of 5]
    estimate_accuracy_table[of 30] estimate_accuracy_table[of 60]
    estimate_accuracy_table[of 135] estimate_accuracy_table[of 360]
  by simp

text \<open>
  C5. The error estimate is continuous at each of the five breakpoints 3, 7, 30, 90 and
  180: the value there (computed by the branch on the left) is the value the formula of
  the branch on the right gives at the same point (5, 20, 100, 500 and 1000), and the
  estimate is non-decreasing in \<open>d\<close> for \<open>d \<ge> 0\<close>.
\<close>

theorem estimate_accuracy_continuous_monotone:
  "isCont error_of 3 \<and> isCont error_of 7 \<and> isCont error_of 30 \<and>
   isCont error_of 90 \<and> isCont error_of 180 \<and>
   error_of 3 = 5 \<and> error_of 3 = 5 + ((3 - 3) / 4) * 15 \<and>
   error_of 7 = 20 \<and> error_of 7 = 20 + ((7 - 7) / 23) * 80 \<and>
   error_of 30 = 100 \<and> error_of 30 = 100 + ((30 - 30) / 60) * 400 \<and>
   error_of 90 = 500 \<and> error_of 90 = 500 + ((90 - 90) / 90) * 500 \<and>
   error_of 180 = 1000 \<and> error_of 180 = 1000 * (1 + (180 - 180) / 180) \<and>
   (0 \<le> d1 \<and> d1 \<le> d2 \<longrightarrow> error_of d1 \<le> error_of d2)"
proof -
  have vals: "error_of 3 = 5" "error_of 7 = 20" "error_of 30 = 100"
    "error_of 90 = 500" "error_of 180 = 1000"
    by (simp_all add: estimate_accuracy_def)
  show ?thesis
    using error_of_isCont error_of_mono[of d1 d2] by (simp add: vals)
qed

theorem estimate_accuracy_continuous_monotone_witness:
  "(0::real) \<le> 2 \<and> (2::real) \<le> 200 \<and> error_of 2 \<le> error_of 200"
  using estimate_accuracy_continuous_monotone[of 2 200] by simp

text \<open>
  C9. For a negative \<open>d\<close> the method takes its first branch: the result is
  \<open>1 + (d/3)\<cdot>4\<close> with \<open>d\<close> as given and the label EXCELLENT, and the error estimate is
  below 1 km. The function is total, so there is no failure.
\<close>

theorem estimate_accuracy_negative:
  "d < 0 \<Longrightarrow> estimate_accuracy d = (1 + (d / 3) * 4, ''EXCELLENT'') \<and> error_of d < 1"
  by (simp add: estimate_accuracy_def)

theorem estimate_accuracy_negative_witness:
  "(- 3 :: real) < 0 \<and> estimate_accuracy (- 3) = (- 3, ''EXCELLENT'') \<and> error_of (- 3) < 1"
  using estimate_accuracy_negative[of "- 3"] by simp

text \<open>
  C10. The error estimate is not always positive: for every \<open>d \<le> -3/4\<close> it is \<open>\<le> 0\<close>
  with the label EXCELLENT, it is exactly 0 at \<open>d = -3/4\<close>, strictly negative below that
  and unbounded below; and \<open>error \<ge> 1\<close> holds exactly when \<open>d \<ge> 0\<close>.
\<close>

theorem estimate_accuracy_not_positive:
  "(d \<le> - 3 / 4 \<longrightarrow> error_of d \<le> 0 \<and> tier_of d = ''EXCELLENT'') \<and>
   error_of (- 3 / 4) = 0 \<and>
   (d < - 3 / 4 \<longrightarrow> error_of d < 0) \<and>
   (\<forall>B. \<exists>d' \<le> - 3 / 4. error_of d' < B) \<and>
   (1 \<le> error_of d \<longleftrightarrow> 0 \<le> d)"
proof -
  have unb: "\<exists>d' \<le> - 3 / 4. error_of d' < B" for B :: real
  proof (intro exI[of _ "min (- 1) (B - 1)"] conjI)
    show "min (- 1) (B - 1) \<le> - 3 / (4::real)" by simp
    show "error_of (min (- 1) (B - 1)) < B"
      by (auto simp: estimate_accuracy_def min_def diff_divide_distrib)
  qed
  have iff: "1 \<le> error_of d \<longleftrightarrow> 0 \<le> d"
    by (auto simp: estimate_accuracy_def diff_divide_distrib)
  have rest: "(d \<le> - 3 / 4 \<longrightarrow> error_of d \<le> 0 \<and> tier_of d = ''EXCELLENT'') \<and>
    error_of (- 3 / 4) = 0 \<and> (d < - 3 / 4 \<longrightarrow> error_of d < 0)"
    by (simp add: estimate_accuracy_def)
  from rest unb iff show ?thesis by blast
qed

theorem estimate_accuracy_not_positive_witness:
  "(- 3 :: real) \<le> - 3 / 4 \<and> error_of (- 3) = - 3 \<and> tier_of (- 3) = ''EXCELLENT'' \<and>
   \<not> 1 \<le> error_of (- 3)"
  using estimate_accuracy_not_positive[of "- 3"] by (simp add: estimate_accuracy_def)

section \<open>The fine refiner\<close>

lemma length_build_times: "length (build_times n t) = n"
  by (induction n arbitrary: t) auto

lemma nth_build_times: "i < n \<Longrightarrow> build_times n t ! i = t + timedelta_seconds (int i)"
proof (induction n arbitrary: t i)
  case 0
  then show ?case by simp
next
  case (Suc n)
  show ?case
  proof (cases i)
    case 0
    then show ?thesis by (simp add: timedelta_seconds_def)
  next
    case (Suc k)
    with Suc.prems have "k < n" by simp
    from Suc.IH[OF this, of "t + timedelta_seconds 1"] Suc show ?thesis
      by (simp add: timedelta_seconds_def algebra_simps)
  qed
qed

lemma build_times_eq: "build_times n t = map (\<lambda>i. t + timedelta_seconds (int i)) [0..<n]"
  by (rule nth_equalityI) (simp_all add: length_build_times nth_build_times)

lemma py_int_total_seconds:
  "0 \<le> d \<Longrightarrow> py_int (total_seconds d) = d div timedelta_seconds 1"
  by (simp add: py_int_def total_seconds_def timedelta_seconds_def floor_divide_of_int_eq[where ?'a = real, symmetric])

lemma argmin_less: "xs \<noteq> [] \<Longrightarrow> argmin xs < length xs"
  by (induction xs rule: argmin.induct) (auto simp: Let_def)

lemma argmin_least: "x \<in> set xs \<Longrightarrow> xs ! argmin xs \<le> x"
proof (induction xs arbitrary: x rule: argmin.induct)
  case 1
  then show ?case by simp
next
  case (2 y)
  then show ?case by simp
next
  case (3 a b bs)
  then show ?case by (fastforce simp: Let_def)
qed

lemma argmin_first: "j < argmin xs \<Longrightarrow> xs ! argmin xs < xs ! j"
proof (induction xs arbitrary: j rule: argmin.induct)
  case 1
  then show ?case by simp
next
  case (2 y)
  then show ?case by simp
next
  case (3 a b bs)
  show ?case
  proof (cases "a \<le> (b # bs) ! argmin (b # bs)")
    case True
    with "3.prems" show ?thesis by (simp add: Let_def)
  next
    case False
    show ?thesis
    proof (cases j)
      case 0
      with False show ?thesis by (simp add: Let_def)
    next
      case (Suc k)
      with "3.prems" False have "k < argmin (b # bs)" by (simp add: Let_def)
      from "3.IH"[OF this] False Suc show ?thesis by (simp add: Let_def)
    qed
  qed
qed

lemma argmin_Min: "xs \<noteq> [] \<Longrightarrow> xs ! argmin xs = Min (set xs)"
  by (intro Min_eqI[symmetric]) (auto simp: argmin_least argmin_less)

lemma maximum_Max:
  assumes "xs \<noteq> []"
  shows "maximum xs = Max (set xs)"
proof (cases xs)
  case Nil
  with assms show ?thesis by simp
next
  case (Cons a as)
  with Max.set_eq_fold[of a as] show ?thesis by simp
qed

lemma fine_grid_build:
  "a < b \<Longrightarrow>
   build_times (nat (py_int (total_seconds ((b + timedelta_minutes 1) - (a - timedelta_minutes 1)))))
     (a - timedelta_minutes 1) = fine_grid a b"
  by (simp add: build_times_eq fine_grid_def py_int_total_seconds timedelta_minutes_def)

lemma fine_grid_nonempty: "a < b \<Longrightarrow> fine_grid a b \<noteq> []"
  by (simp add: fine_grid_def timedelta_minutes_def timedelta_seconds_def)

lemma refine_pass_data_unfold:
  assumes "start_time < end_time"
  shows "refine_pass_data self observe start_time end_time =
     (let times = fine_grid start_time end_time;
          dist_km_list = map (\<lambda>t. distance_km (observe t)) times;
          i = argmin dist_km_list
      in if dist_km_list ! i > max_distance_km self then Inr None
         else Inr (Some \<lparr>start = start_time, end' = end_time, closest_time = times ! i,
                min_distance = dist_km_list ! i,
                max_altitude = maximum (map (\<lambda>t. alt_degrees (observe t)) times),
                duration = real_of_int (\<Sum>d \<leftarrow> dist_km_list. if d \<le> max_distance_km self then 1 else 0) / 60,
                error_km = fst (estimate_accuracy (total_seconds (times ! i - tle_epoch self) / 86400)),
                reliability = snd (estimate_accuracy (total_seconds (times ! i - tle_epoch self) / 86400))\<rparr>))"
  unfolding refine_pass_data_def Let_def fine_grid_build[OF assms]
  using fine_grid_nonempty[OF assms] by (simp add: case_prod_beta)

lemma second_pos: "0 < timedelta_seconds 1"
  by (simp add: timedelta_seconds_def)

lemma minute_seconds: "timedelta_minutes 1 = 60 * timedelta_seconds 1"
  by (simp add: timedelta_seconds_def timedelta_minutes_def)

lemma length_fine_grid:
  "length (fine_grid a b) = nat ((b - a + 2 * timedelta_minutes 1) div timedelta_seconds 1)"
  by (simp add: fine_grid_def algebra_simps)

lemma nth_fine_grid:
  "i < length (fine_grid a b) \<Longrightarrow>
   fine_grid a b ! i = a - timedelta_minutes 1 + int i * timedelta_seconds 1"
  by (simp add: fine_grid_def timedelta_seconds_def)

lemma fine_grid_span:
  assumes "timedelta_seconds 1 dvd b - a" "a < b"
  shows "int (length (fine_grid a b)) * timedelta_seconds 1 = b - a + 2 * timedelta_minutes 1"
proof -
  have "timedelta_seconds 1 dvd b - a + 2 * timedelta_minutes 1"
    using assms(1) by (simp add: minute_seconds)
  moreover have "0 \<le> (b - a + 2 * timedelta_minutes 1) div timedelta_seconds 1"
    using assms(2) second_pos by (simp add: minute_seconds pos_imp_zdiv_nonneg_iff)
  ultimately show ?thesis
    by (simp add: length_fine_grid)
qed

lemma in_fine_grid_iff:
  assumes "timedelta_seconds 1 dvd b - a" "a < b"
  shows "t \<in> set (fine_grid a b) \<longleftrightarrow>
     a - timedelta_minutes 1 \<le> t \<and> t < b + timedelta_minutes 1 \<and> timedelta_seconds 1 dvd t - a"
proof
  assume "t \<in> set (fine_grid a b)"
  then obtain i where i: "i < length (fine_grid a b)" "t = fine_grid a b ! i"
    by (auto simp: in_set_conv_nth)
  then have t: "t = a - timedelta_minutes 1 + int i * timedelta_seconds 1"
    by (simp add: nth_fine_grid)
  have "int i * timedelta_seconds 1 < int (length (fine_grid a b)) * timedelta_seconds 1"
    using i(1) second_pos by simp
  then have "t < b + timedelta_minutes 1"
    using fine_grid_span[OF assms] t by simp
  moreover have "a - timedelta_minutes 1 \<le> t"
    using t second_pos by simp
  moreover have "timedelta_seconds 1 dvd t - a"
    using t by (simp add: minute_seconds)
  ultimately show "a - timedelta_minutes 1 \<le> t \<and> t < b + timedelta_minutes 1 \<and> timedelta_seconds 1 dvd t - a"
    by simp
next
  assume h: "a - timedelta_minutes 1 \<le> t \<and> t < b + timedelta_minutes 1 \<and> timedelta_seconds 1 dvd t - a"
  have "t - (a - timedelta_minutes 1) = (t - a) + timedelta_seconds 1 * 60"
    by (simp add: minute_seconds)
  with h have "timedelta_seconds 1 dvd t - (a - timedelta_minutes 1)"
    by (metis dvd_add dvd_triv_left)
  then obtain k where k: "t - (a - timedelta_minutes 1) = timedelta_seconds 1 * k"
    by (auto simp: dvd_def)
  from k h have "0 \<le> timedelta_seconds 1 * k" by linarith
  with second_pos have "0 \<le> k"
    by (simp add: zero_le_mult_iff)
  have "timedelta_seconds 1 * k < int (length (fine_grid a b)) * timedelta_seconds 1"
    using fine_grid_span[OF assms] k h by simp
  then have "k < int (length (fine_grid a b))"
    using second_pos by (simp add: mult.commute)
  with \<open>0 \<le> k\<close> have "nat k < length (fine_grid a b)" by simp
  moreover have "fine_grid a b ! nat k = t"
    using nth_fine_grid[OF \<open>nat k < length (fine_grid a b)\<close>] k \<open>0 \<le> k\<close>
    by (simp add: mult.commute)
  ultimately show "t \<in> set (fine_grid a b)"
    by (auto simp: in_set_conv_nth)
qed

lemma nth_fine_grid_less:
  assumes "i < length (fine_grid a b)" "j < length (fine_grid a b)"
  shows "fine_grid a b ! j < fine_grid a b ! i \<longleftrightarrow> j < i"
  using assms second_pos by (simp add: nth_fine_grid)

lemma count_filter:
  "(\<Sum>x \<leftarrow> xs. if P x then 1 else (0::int)) = int (length (filter P xs))"
  by (induction xs) auto

lemma refine_pass_data_total:
  "start_time < end_time \<Longrightarrow> \<exists>r. refine_pass_data self observe start_time end_time = Inr r"
  by (simp add: refine_pass_data_unfold Let_def)

lemma refine_pass_data_None_iff:
  assumes "start_time < end_time"
  shows "refine_pass_data self observe start_time end_time = Inr None \<longleftrightarrow>
     max_distance_km self <
       Min ((\<lambda>t. distance_km (observe t)) ` set (fine_grid start_time end_time))"
proof -
  let ?ds = "map (\<lambda>t. distance_km (observe t)) (fine_grid start_time end_time)"
  have "?ds \<noteq> []" using fine_grid_nonempty[OF assms] by simp
  from argmin_Min[OF this] show ?thesis
    by (simp add: refine_pass_data_unfold[OF assms] Let_def)
qed

lemma refine_pass_data_Some:
  assumes "start_time < end_time"
    and "refine_pass_data self observe start_time end_time = Inr (Some p)"
  defines "grid \<equiv> fine_grid start_time end_time"
  defines "i \<equiv> argmin (map (\<lambda>t. distance_km (observe t)) grid)"
  shows "start p = start_time" "end' p = end_time"
    "i < length grid" "closest_time p = grid ! i"
    "min_distance p = distance_km (observe (grid ! i))"
    "min_distance p \<le> max_distance_km self"
    "min_distance p = Min ((\<lambda>t. distance_km (observe t)) ` set grid)"
    "\<forall>j<i. min_distance p < distance_km (observe (grid ! j))"
    "max_altitude p = Max ((\<lambda>t. alt_degrees (observe t)) ` set grid)"
    "duration p = real (occupancy self observe start_time end_time) / 60"
    "estimate_accuracy (total_seconds (closest_time p - tle_epoch self) / 86400) =
       (error_km p, reliability p)"
proof -
  let ?ds = "map (\<lambda>t. distance_km (observe t)) grid"
  have ne: "grid \<noteq> []" "?ds \<noteq> []"
    using fine_grid_nonempty[OF assms(1)] by (simp_all add: grid_def)
  have il: "i < length ?ds" unfolding i_def by (rule argmin_less[OF ne(2)])
  then show "i < length grid" by simp
  have p: "\<not> max_distance_km self < ?ds ! i"
    "p = \<lparr>start = start_time, end' = end_time, closest_time = grid ! i,
          min_distance = ?ds ! i,
          max_altitude = maximum (map (\<lambda>t. alt_degrees (observe t)) grid),
          duration = real_of_int (\<Sum>d \<leftarrow> ?ds. if d \<le> max_distance_km self then 1 else 0) / 60,
          error_km = fst (estimate_accuracy (total_seconds (grid ! i - tle_epoch self) / 86400)),
          reliability = snd (estimate_accuracy (total_seconds (grid ! i - tle_epoch self) / 86400))\<rparr>"
    using assms(2) unfolding refine_pass_data_unfold[OF assms(1)] Let_def grid_def[symmetric] i_def[symmetric]
    by (simp_all split: if_splits)
  show "start p = start_time" "end' p = end_time" "closest_time p = grid ! i"
    by (simp_all add: p(2))
  show md: "min_distance p = distance_km (observe (grid ! i))"
    using il by (simp add: p(2))
  show "min_distance p \<le> max_distance_km self"
    using p(1) il by (simp add: p(2))
  show "min_distance p = Min ((\<lambda>t. distance_km (observe t)) ` set grid)"
    using argmin_Min[OF ne(2)] by (simp add: p(2) i_def)
  show "\<forall>j<i. min_distance p < distance_km (observe (grid ! j))"
  proof (intro allI impI)
    fix j assume "j < i"
    from argmin_first[of j ?ds] this il show "min_distance p < distance_km (observe (grid ! j))"
      by (simp add: p(2) i_def)
  qed
  show "max_altitude p = Max ((\<lambda>t. alt_degrees (observe t)) ` set grid)"
    using maximum_Max[of "map (\<lambda>t. alt_degrees (observe t)) grid"] ne by (simp add: p(2))
  show "duration p = real (occupancy self observe start_time end_time) / 60"
    using count_filter[of "in_range self observe" grid]
    by (simp add: p(2) occupancy_def grid_def in_range_def comp_def)
  show "estimate_accuracy (total_seconds (closest_time p - tle_epoch self) / 86400) =
       (error_km p, reliability p)"
    by (simp add: p(2))
qed

section \<open>The coarse scan\<close>

lemma minute_pos: "0 < timedelta_minutes 1"
  by (simp add: timedelta_minutes_def)

lemma timedelta_minutes_mult: "timedelta_minutes k = k * timedelta_minutes 1"
  by (simp add: timedelta_minutes_def)

lemma coarse_ticks_Nil: "\<not> current < end_dt \<Longrightarrow> coarse_ticks current end_dt = []"
proof -
  assume "\<not> current < end_dt"
  then have "end_dt - current + timedelta_minutes 1 - 1 \<le> timedelta_minutes 1 - 1" by simp
  then have "(end_dt - current + timedelta_minutes 1 - 1) div timedelta_minutes 1
      \<le> (timedelta_minutes 1 - 1) div timedelta_minutes 1"
    using minute_pos by (intro zdiv_mono1) simp_all
  also have "\<dots> = 0" by (simp add: timedelta_minutes_def)
  finally have "(end_dt - current + timedelta_minutes 1 - 1) div timedelta_minutes 1 \<le> 0" .
  then show ?thesis by (simp add: coarse_ticks_def)
qed

lemma coarse_ticks_Cons:
  assumes "current < end_dt"
  shows "coarse_ticks current end_dt =
    current # coarse_ticks (current + timedelta_minutes 1) end_dt"
proof -
  let ?m = "timedelta_minutes 1"
  let ?n = "nat ((end_dt - (current + ?m) + ?m - 1) div ?m)"
  have "(end_dt - current + ?m - 1) div ?m = (end_dt - (current + ?m) + ?m - 1) div ?m + 1"
    using minute_pos div_add_self2[of ?m "end_dt - (current + ?m) + ?m - 1"]
    by (simp add: algebra_simps)
  moreover have "0 \<le> (end_dt - (current + ?m) + ?m - 1) div ?m"
    using assms minute_pos by (simp add: pos_imp_zdiv_nonneg_iff)
  ultimately have n: "nat ((end_dt - current + ?m - 1) div ?m) = Suc ?n"
    by simp
  have "map (\<lambda>k. current + timedelta_minutes (int k)) [0..<Suc ?n] =
     current # map (\<lambda>k. current + ?m + timedelta_minutes (int k)) [0..<?n]"
    by (simp add: upt_conv_Cons map_Suc_upt[symmetric] timedelta_minutes_def algebra_simps del: upt_Suc)
  then show ?thesis
    unfolding coarse_ticks_def n by simp
qed

lemma coarse_ticks_greater:
  "t \<in> set (coarse_ticks current end_dt) \<Longrightarrow> current \<le> t \<and> t < end_dt \<and> timedelta_minutes 1 dvd t - current"
  by (auto simp: coarse_ticks_def timedelta_minutes_def)

lemma refine_window_eq:
  "a < b \<Longrightarrow> refine_pass_data self observe a b = Inr (refine_window self observe (a, b))"
  using refine_pass_data_total[of a b self observe] by (auto simp: refine_window_def)

lemma coarse_loop_scan:
  assumes "in_window \<longrightarrow> (\<exists>a. window_start = Some a \<and> a < current)"
  shows "coarse_loop self observe end_dt current window_start in_window passes =
     Inr (passes @ List.map_filter (refine_window self observe)
       (scan_windows (in_range self observe) (coarse_ticks current end_dt) in_window window_start))"
  using assms
proof (induction self observe end_dt current window_start in_window passes rule: coarse_loop.induct)
  case (1 self observe end_dt current window_start in_window passes)
  let ?next = "current + timedelta_minutes 1"
  show ?case
  proof (cases "current < end_dt")
    case False
    then show ?thesis
      by (subst coarse_loop.simps) (simp add: coarse_ticks_Nil)
  next
    case lt: True
    note ticks = coarse_ticks_Cons[OF lt]
    show ?thesis
    proof (cases "in_range self observe current")
      case inr: True
      then have d: "distance_km (observe current) \<le> max_distance_km self"
        by (simp add: in_range_def)
      show ?thesis
      proof (cases in_window)
        case True
        with "1.prems" minute_pos have "in_window \<longrightarrow> (\<exists>a. window_start = Some a \<and> a < ?next)"
          by auto
        from "1.IH"(2)[OF lt refl refl d _ this] True show ?thesis
          by (subst coarse_loop.simps) (simp add: lt d inr ticks Let_def)
      next
        case False
        have "True \<longrightarrow> (\<exists>a. Some current = Some a \<and> a < ?next)"
          using minute_pos by simp
        from "1.IH"(1)[OF lt refl refl d _ this] False show ?thesis
          by (subst coarse_loop.simps) (simp add: lt d inr ticks Let_def)
      qed
    next
      case out: False
      then have d: "\<not> distance_km (observe current) \<le> max_distance_km self"
        by (simp add: in_range_def)
      show ?thesis
      proof (cases in_window)
        case True
        with "1.prems" obtain a where a: "window_start = Some a" "a < current" by auto
        note r = refine_window_eq[OF a(2), of self observe]
        have "False \<longrightarrow> (\<exists>a. window_start = Some a \<and> a < ?next)" by simp
        from "1.IH"(3)[OF lt refl refl d True a(1) r this] True show ?thesis
          by (subst coarse_loop.simps)
             (simp add: lt d out ticks Let_def a r List.map_filter_simps split: option.splits)
      next
        case False
        then have "in_window \<longrightarrow> (\<exists>a. window_start = Some a \<and> a < ?next)" by simp
        from "1.IH"(4)[OF lt refl refl d False this] False show ?thesis
          by (subst coarse_loop.simps) (simp add: lt d out ticks Let_def)
      qed
    qed
  qed
qed

lemma scan_windows_props:
  assumes "sorted_wrt (<) ts"
    and "in_window \<longrightarrow> (\<exists>a. pending = Some a \<and> (\<forall>t\<in>set ts. a < t))"
  shows "(\<forall>w \<in> set (scan_windows inr ts in_window pending).
            fst w < snd w \<and> snd w \<in> set ts \<and> \<not> inr (snd w) \<and>
            (fst w \<in> set ts \<and> inr (fst w) \<or> in_window \<and> pending = Some (fst w))) \<and>
         sorted_wrt (\<lambda>w1 w2. snd w1 < fst w2) (scan_windows inr ts in_window pending)"
  using assms
proof (induction ts arbitrary: in_window pending)
  case Nil
  then show ?case by simp
next
  case (Cons t ts)
  from Cons.prems(1) have sorted: "sorted_wrt (<) ts" and above: "\<forall>u\<in>set ts. t < u"
    by simp_all
  show ?case
  proof (cases "inr t")
    case inr: True
    show ?thesis
    proof (cases in_window)
      case True
      with Cons.prems(2) have "True \<longrightarrow> (\<exists>a. pending = Some a \<and> (\<forall>u\<in>set ts. a < u))"
        by auto
      from Cons.IH[OF sorted this] inr True show ?thesis by auto
    next
      case False
      from above have "True \<longrightarrow> (\<exists>a. Some t = Some a \<and> (\<forall>u\<in>set ts. a < u))"
        by simp
      from Cons.IH[OF sorted this] inr False show ?thesis by auto
    qed
  next
    case out: False
    have nw: "False \<longrightarrow> (\<exists>a. pending = Some a \<and> (\<forall>u\<in>set ts. a < u))" by simp
    note IH = Cons.IH[OF sorted nw, of ]
    show ?thesis
    proof (cases in_window)
      case True
      with Cons.prems(2) obtain a where a: "pending = Some a" "a < t" by auto
      from IH above have "\<forall>w\<in>set (scan_windows inr ts False pending). t < fst w"
        by auto
      with IH out True a show ?thesis by auto
    next
      case False
      with IH out show ?thesis by auto
    qed
  qed
qed

lemma sorted_coarse_ticks: "sorted_wrt (<) (coarse_ticks start_time end_dt)"
  by (simp add: coarse_ticks_def sorted_wrt_map sorted_wrt_iff_nth_less timedelta_minutes_def)

lemma coarse_windows_props:
  defines "ws \<equiv> \<lambda>inr s e. scan_windows inr (coarse_ticks s e) False None"
  shows "w \<in> set (ws inr s e) \<Longrightarrow>
      fst w < snd w \<and> fst w \<in> set (coarse_ticks s e) \<and> snd w \<in> set (coarse_ticks s e) \<and>
      inr (fst w) \<and> \<not> inr (snd w)"
    and "sorted_wrt (\<lambda>w1 w2. snd w1 < fst w2) (ws inr s e)"
  using scan_windows_props[OF sorted_coarse_ticks, of False None s e inr]
  by (auto simp: ws_def)

section \<open>The order of the passes\<close>

lemma second_dvd_minute: "timedelta_minutes 1 dvd d \<Longrightarrow> timedelta_seconds 1 dvd d"
  by (metis dvd_mult_left minute_seconds mult.commute)

lemma closest_time_grid:
  assumes "a < b" and "refine_pass_data self observe a b = Inr (Some p)"
  shows "closest_time p \<in> set (fine_grid a b)"
    and "\<forall>t\<in>set (fine_grid a b).
           distance_km (observe (closest_time p)) \<le> distance_km (observe t)"
    and "\<forall>t\<in>set (fine_grid a b). t < closest_time p \<longrightarrow>
           distance_km (observe (closest_time p)) < distance_km (observe t)"
proof -
  note S = refine_pass_data_Some[OF assms]
  show "closest_time p \<in> set (fine_grid a b)"
    using S(3,4) by simp
  have md: "min_distance p = distance_km (observe (closest_time p))"
    using S(4,5) by simp
  show "\<forall>t\<in>set (fine_grid a b).
           distance_km (observe (closest_time p)) \<le> distance_km (observe t)"
    using S(7) md by (metis (no_types, lifting) List.finite_set Min_le finite_imageI image_eqI)
  show "\<forall>t\<in>set (fine_grid a b). t < closest_time p \<longrightarrow>
           distance_km (observe (closest_time p)) < distance_km (observe t)"
  proof (intro ballI impI)
    fix t assume "t \<in> set (fine_grid a b)" "t < closest_time p"
    then obtain j where j: "j < length (fine_grid a b)" "t = fine_grid a b ! j"
      by (auto simp: in_set_conv_nth)
    with \<open>t < closest_time p\<close> S(3,4) nth_fine_grid_less[OF S(3) j(1)]
    have "j < argmin (map (\<lambda>t. distance_km (observe t)) (fine_grid a b))" by simp
    with S(8) md j show "distance_km (observe (closest_time p)) < distance_km (observe t)"
      by simp
  qed
qed

lemma closest_time_order:
  assumes w: "a1 < b1" "b1 < a2" "a2 < b2"
    and l: "timedelta_minutes 1 dvd b1 - a1" "timedelta_minutes 1 dvd a2 - b1"
      "timedelta_minutes 1 dvd b2 - a2"
    and p: "refine_pass_data self observe a1 b1 = Inr (Some p)"
    and q: "refine_pass_data self observe a2 b2 = Inr (Some q)"
  shows "closest_time p \<le> closest_time q"
    and "closest_time p = closest_time q \<Longrightarrow> a2 = b1 + timedelta_minutes 1"
proof -
  let ?m = "timedelta_minutes 1" and ?s = "timedelta_seconds 1"
  let ?c1 = "closest_time p" and ?c2 = "closest_time q"
  note s1 = second_dvd_minute[OF l(1)] and s2 = second_dvd_minute[OF l(3)]
  note g1 = in_fine_grid_iff[OF s1 w(1)] and g2 = in_fine_grid_iff[OF s2 w(3)]
  note P = closest_time_grid[OF w(1) p] and Q = closest_time_grid[OF w(3) q]
  from P(1) g1 have c1: "a1 - ?m \<le> ?c1" "?c1 < b1 + ?m" "?s dvd ?c1 - a1" by simp_all
  from Q(1) g2 have c2: "a2 - ?m \<le> ?c2" "?c2 < b2 + ?m" "?s dvd ?c2 - a2" by simp_all
  have "?m dvd (a2 - b1) + (b1 - a1)" using l(1,2) by (rule dvd_add[rotated])
  then have s12: "?s dvd a2 - a1" using second_dvd_minute by simp
  from l(2) w(2) have gap: "b1 + ?m \<le> a2"
    using zdvd_imp_le[of ?m "a2 - b1"] by simp
  show le: "?c1 \<le> ?c2"
  proof (rule ccontr)
    assume "\<not> ?c1 \<le> ?c2"
    then have lt: "?c2 < ?c1" by simp
    have "?s dvd (?c2 - a2) + (a2 - a1)" using c2(3) s12 by (rule dvd_add)
    then have "?s dvd ?c2 - a1" by simp
    with c1 c2 lt w gap have "?c2 \<in> set (fine_grid a1 b1)" by (simp add: g1)
    with P(3) lt have d1: "distance_km (observe ?c1) < distance_km (observe ?c2)" by simp
    have "?s dvd (?c1 - a1) - (a2 - a1)" using c1(3) s12 by (rule dvd_diff)
    then have "?s dvd ?c1 - a2" by simp
    with c1 c2 lt w gap have "?c1 \<in> set (fine_grid a2 b2)" by (simp add: g2)
    with Q(2) have "distance_km (observe ?c2) \<le> distance_km (observe ?c1)" by simp
    with d1 show False by simp
  qed
  show "a2 = b1 + ?m" if "?c1 = ?c2"
  proof (rule ccontr)
    assume ne: "a2 \<noteq> b1 + ?m"
    from l(2) obtain k where k: "a2 - b1 = ?m * k" by (auto simp: dvd_def)
    with gap ne have "?m * 1 < ?m * k" by linarith
    then have "1 < k" using minute_pos by (simp only: mult_less_cancel_left_pos)
    then have "?m * 2 \<le> ?m * k" using minute_pos by simp
    with k have "b1 + 2 * ?m \<le> a2" by simp
    with c1 c2 that show False by simp
  qed
qed

lemma set_map_filter:
  "set (List.map_filter f xs) = {y. \<exists>x\<in>set xs. f x = Some y}"
  by (induction xs) (auto split: option.splits)

lemma sorted_wrt_map_filter:
  assumes "sorted_wrt R xs"
    and "\<And>x y p q. x \<in> set xs \<Longrightarrow> y \<in> set xs \<Longrightarrow> R x y \<Longrightarrow> f x = Some p \<Longrightarrow> f y = Some q
           \<Longrightarrow> S p q"
  shows "sorted_wrt S (List.map_filter f xs)"
  using assms
proof (induction xs)
  case Nil
  then show ?case by simp
next
  case (Cons x xs)
  have IH: "sorted_wrt S (List.map_filter f xs)"
    using Cons.prems by (intro Cons.IH) auto
  show ?case
  proof (cases "f x")
    case None
    with IH show ?thesis by simp
  next
    case (Some p)
    have "\<forall>q\<in>set (List.map_filter f xs). S p q"
    proof
      fix q
      assume "q \<in> set (List.map_filter f xs)"
      then obtain y where y: "y \<in> set xs" "f y = Some q"
        by (auto simp: set_map_filter)
      with Cons.prems(1) have "R x y" by simp
      with Cons.prems(2)[of x y p q] Some y show "S p q" by simp
    qed
    with IH Some show ?thesis by simp
  qed
qed

lemma calculate_passes_scan:
  "calculate_passes self observe years c =
     (Inr (List.map_filter (refine_window self observe) (horizon_windows self observe years c)),
      stl c)"
  by (simp add: calculate_passes_def ts_now_def coarse_loop_scan)

lemma window_lattice:
  assumes "w \<in> set (scan_windows inr (coarse_ticks s e) False None)"
  shows "fst w < snd w" "timedelta_minutes 1 dvd fst w - s" "timedelta_minutes 1 dvd snd w - s"
    "timedelta_minutes 1 dvd snd w - fst w" "s \<le> fst w" "snd w < e" "inr (fst w)" "\<not> inr (snd w)"
proof -
  note P = coarse_windows_props(1)[OF assms]
  from P show "fst w < snd w" "inr (fst w)" "\<not> inr (snd w)" by simp_all
  from P coarse_ticks_greater[of "fst w" s e] coarse_ticks_greater[of "snd w" s e]
  show d: "timedelta_minutes 1 dvd fst w - s" "timedelta_minutes 1 dvd snd w - s"
    and "s \<le> fst w" "snd w < e"
    by simp_all
  from dvd_diff[OF d(2) d(1)] show "timedelta_minutes 1 dvd snd w - fst w" by simp
qed

lemma emitted_pass:
  assumes "fst (calculate_passes self observe years c) = Inr ps" and "p \<in> set ps"
  shows "(start p, end' p) \<in> set (horizon_windows self observe years c)"
    and "refine_pass_data self observe (start p) (end' p) = Inr (Some p)"
    and "start p < end' p"
proof -
  from assms obtain w where w: "w \<in> set (horizon_windows self observe years c)"
    "refine_window self observe w = Some p"
    by (auto simp: calculate_passes_scan set_map_filter)
  note lt = window_lattice(1)[OF w(1)]
  from refine_window_eq[OF lt, of self observe] w(2)
  have r: "refine_pass_data self observe (fst w) (snd w) = Inr (Some p)" by simp
  from refine_pass_data_Some(1,2)[OF lt r] have "w = (start p, end' p)"
    by (simp add: prod_eq_iff)
  with w(1) r lt show "(start p, end' p) \<in> set (horizon_windows self observe years c)"
    and "refine_pass_data self observe (start p) (end' p) = Inr (Some p)"
    and "start p < end' p"
    by simp_all
qed

lemma passes_sorted:
  "sorted_wrt (\<lambda>p q. end' p < start q \<and> closest_time p \<le> closest_time q \<and>
       (closest_time p = closest_time q \<longrightarrow> start q = end' p + timedelta_minutes 1))
     (List.map_filter (refine_window self observe) (horizon_windows self observe years c))"
proof (rule sorted_wrt_map_filter[OF coarse_windows_props(2)])
  fix x y p q
  let ?s = "shd c"
  assume x: "x \<in> set (horizon_windows self observe years c)"
    and y: "y \<in> set (horizon_windows self observe years c)"
    and xy: "snd x < fst y"
    and p: "refine_window self observe x = Some p"
    and q: "refine_window self observe y = Some q"
  note X = window_lattice[OF x] and Y = window_lattice[OF y]
  from refine_window_eq[OF X(1), of self observe] p
  have rp: "refine_pass_data self observe (fst x) (snd x) = Inr (Some p)" by simp
  from refine_window_eq[OF Y(1), of self observe] q
  have rq: "refine_pass_data self observe (fst y) (snd y) = Inr (Some q)" by simp
  from dvd_diff[OF Y(2) X(3)] have gap: "timedelta_minutes 1 dvd fst y - snd x" by simp
  note O = closest_time_order[OF X(1) xy Y(1) X(4) gap Y(4) rp rq]
  note Sp = refine_pass_data_Some(1,2)[OF X(1) rp] and Sq = refine_pass_data_Some(1,2)[OF Y(1) rq]
  from O xy Sp Sq
  show "end' p < start q \<and> closest_time p \<le> closest_time q \<and>
       (closest_time p = closest_time q \<longrightarrow> start q = end' p + timedelta_minutes 1)"
    by simp
qed

section \<open>The window open at the end of the horizon\<close>

lemma scan_windows_all_in_range:
  "\<forall>t\<in>set ts. inr t \<Longrightarrow> scan_windows inr ts in_window pending = []"
  by (induction ts arbitrary: in_window pending) auto

lemma scan_windows_trailing:
  assumes "a \<in> set (coarse_ticks s e)"
    and "\<forall>t\<in>set (coarse_ticks s e). a \<le> t \<longrightarrow> inr t"
  shows "scan_windows inr (coarse_ticks s e) in_window pending =
         scan_windows inr (coarse_ticks s a) in_window pending"
  using assms
proof (induction "length (coarse_ticks s e)" arbitrary: s in_window pending)
  case 0
  then show ?case by simp
next
  case (Suc n)
  from Suc.prems(1) have "s < e"
    using coarse_ticks_Nil[of s e] by fastforce
  note ticks = coarse_ticks_Cons[OF this]
  show ?case
  proof (cases "a = s")
    case True
    with Suc.prems(2) coarse_ticks_greater[of _ s e] have "\<forall>t\<in>set (coarse_ticks s e). inr t"
      by auto
    then show ?thesis
      by (simp add: scan_windows_all_in_range True coarse_ticks_Nil)
  next
    case False
    with Suc.prems(1) ticks have a: "a \<in> set (coarse_ticks (s + timedelta_minutes 1) e)"
      by simp
    from coarse_ticks_greater[OF this] minute_pos have "s < a" by simp
    note ticks' = coarse_ticks_Cons[OF this]
    have n: "n = length (coarse_ticks (s + timedelta_minutes 1) e)"
      using Suc.hyps(2) ticks by simp
    have "\<forall>t\<in>set (coarse_ticks (s + timedelta_minutes 1) e). a \<le> t \<longrightarrow> inr t"
      using Suc.prems(2) ticks by simp
    note IH = Suc.hyps(1)[OF n a this]
    show ?thesis
      by (subst ticks, subst ticks') (simp add: IH split: option.splits)
  qed
qed

lemma in_coarse_ticks_iff:
  "t \<in> set (coarse_ticks s e) \<longleftrightarrow> s \<le> t \<and> t < e \<and> timedelta_minutes 1 dvd t - s"
proof
  assume "t \<in> set (coarse_ticks s e)"
  then show "s \<le> t \<and> t < e \<and> timedelta_minutes 1 dvd t - s"
    by (rule coarse_ticks_greater)
next
  let ?m = "timedelta_minutes 1"
  assume h: "s \<le> t \<and> t < e \<and> ?m dvd t - s"
  then obtain k where k: "t - s = ?m * k" by (auto simp: dvd_def)
  with h have "0 \<le> ?m * k" by linarith
  with minute_pos have k0: "0 \<le> k" by (simp add: zero_le_mult_iff)
  from k h have "?m * k + ?m \<le> e - s + ?m - 1" by linarith
  then have "(?m * k + ?m) div ?m \<le> (e - s + ?m - 1) div ?m"
    using minute_pos by (intro zdiv_mono1) simp_all
  moreover have "(?m * k + ?m) div ?m = k + 1"
    using minute_pos by simp
  ultimately have "nat k < nat ((e - s + ?m - 1) div ?m)"
    using k0 by simp
  moreover have "t = s + timedelta_minutes (int (nat k))"
    using k k0 by (simp add: timedelta_minutes_mult[of k] mult.commute)
  ultimately show "t \<in> set (coarse_ticks s e)"
    unfolding coarse_ticks_def by (auto simp: image_iff intro!: bexI[of _ "nat k"])
qed

section \<open>The concrete runs, evaluated\<close>

lemma ex_horizon:
  "timedelta_days (1 / 720) = 120000000"
  "timedelta_days (1 / 360) = 240000000"
  by (simp_all add: timedelta_days_def round_half_even_def)

lemma ex_refine: "refine_pass_data ex_self ex_observe 0 60000000 = Inr (Some ex_pass)"
  by code_simp

lemma ex_occupancy: "occupancy ex_self ex_observe 0 60000000 = 1"
  by code_simp

lemma ex_loop: "coarse_loop ex_self ex_observe 120000000 0 None False [] = Inr [ex_pass]"
  by code_simp

lemma ex_loop_late: "coarse_loop ex_self ex_observe 120000001 1 None False [] = Inr []"
  by code_simp

lemma ex_loop2:
  "coarse_loop ex_self ex_observe2 240000000 0 None False [] = Inr [ex_pass2a, ex_pass2b]"
  by code_simp

lemma ex_loop3: "coarse_loop ex_self ex_observe3 240000000 0 None False [] = Inr [ex_pass3]"
  by code_simp

lemma ex_loop3_cut: "coarse_loop ex_self ex_observe3 120000000 0 None False [] = Inr [ex_pass3]"
  by code_simp

lemma ex_ticks: "coarse_ticks 0 240000000 = [0, 60000000, 120000000, 180000000]"
  by code_simp

lemma ex_windows2:
  "scan_windows (in_range ex_self ex_observe2) [0, 60000000, 120000000, 180000000] False None =
     [(0, 60000000), (120000000, 180000000)]"
  by code_simp

lemma ex_calculate:
  "calculate_passes ex_self ex_observe (1 / 262800) (sconst 0) = (Inr [ex_pass], sconst 0)"
  "calculate_passes ex_self ex_observe (1 / 262800) (sconst 1) = (Inr [], sconst 1)"
  "calculate_passes ex_self ex_observe2 (1 / 131400) (sconst 0) =
     (Inr [ex_pass2a, ex_pass2b], sconst 0)"
  "calculate_passes ex_self ex_observe3 (1 / 131400) (sconst 0) = (Inr [ex_pass3], sconst 0)"
  by (simp_all add: calculate_passes_def ts_now_def ex_horizon ex_loop ex_loop_late ex_loop2
      ex_loop3)

section \<open>The claims about the search\<close>

text \<open>
  C1. As stated (the search takes the start of its horizon from its caller and never
  reads the current time, so two invocations with the same inputs give the same passes)
  the claim fails: \<open>calculate_passes\<close> takes only the length of the horizon and reads the
  clock for its start. Two invocations with the same predictor, propagator and horizon
  length give different results at different clock readings.
\<close>

theorem calculate_passes_same_inputs_counterexample:
  "fst (calculate_passes ex_self ex_observe (1 / 262800) (sconst 0)) \<noteq>
   fst (calculate_passes ex_self ex_observe (1 / 262800) (sconst 1))"
  by (simp add: ex_calculate)

text \<open>
  C1, amended. The search reads the clock exactly once, at entry, for the start of the
  horizon, and after that is the coarse loop from that reading to the reading plus
  \<open>365 \<cdot> years\<close> days; so two invocations with the same predictor, propagator and horizon
  length, at clocks whose next readings agree, give the same passes.
\<close>

theorem calculate_passes_clock:
  "calculate_passes self observe years c =
     (coarse_loop self observe (shd c + timedelta_days (365 * years)) (shd c) None False [],
      stl c) \<and>
   (shd c = shd c' \<longrightarrow>
      fst (calculate_passes self observe years c) = fst (calculate_passes self observe years c'))"
  by (simp add: calculate_passes_def ts_now_def)

theorem calculate_passes_clock_witness:
  "shd (sconst (0::int)) = shd (0 ## sconst 7) \<and>
   fst (calculate_passes ex_self ex_observe (1 / 262800) (sconst 0)) =
   fst (calculate_passes ex_self ex_observe (1 / 262800) (0 ## sconst 7)) \<and>
   fst (calculate_passes ex_self ex_observe (1 / 262800) (0 ## sconst 7)) = Inr [ex_pass]"
proof -
  have "shd (sconst (0::int)) = shd (0 ## sconst 7)" by simp
  with calculate_passes_clock[of ex_self ex_observe "1 / 262800" "sconst 0" "0 ## sconst 7"]
  have "fst (calculate_passes ex_self ex_observe (1 / 262800) (sconst 0)) =
    fst (calculate_passes ex_self ex_observe (1 / 262800) (0 ## sconst 7))"
    by blast
  then show ?thesis by (simp add: ex_calculate)
qed

text \<open>
  C2. As stated (the emitted passes are strictly ordered by \<open>closest_time\<close>) the claim
  fails: two windows one coarse tick apart have padded grids that share a minute, and a
  closest approach in the shared minute is the closest time of both passes.
\<close>

theorem passes_strictly_ordered_counterexample:
  "fst (calculate_passes ex_self ex_observe2 (1 / 131400) (sconst 0)) =
     Inr [ex_pass2a, ex_pass2b] \<and>
   \<not> closest_time ex_pass2a < closest_time ex_pass2b"
  by (simp add: ex_calculate ex_pass2a_def ex_pass2b_def)

text \<open>
  C2, amended. The search returns a list of passes whose coarse windows \<open>[start, end)\<close>
  are non-empty, strictly ordered and disjoint, and whose \<open>closest_time\<close> is
  non-decreasing; two passes have the same \<open>closest_time\<close> only if the second window
  starts one coarse tick after the first one ends.
\<close>

theorem passes_ordered:
  "\<exists>ps. fst (calculate_passes self observe years c) = Inr ps \<and>
     (\<forall>p\<in>set ps. start p < end' p) \<and>
     sorted_wrt (\<lambda>p q. end' p < start q \<and> closest_time p \<le> closest_time q \<and>
        (closest_time p = closest_time q \<longrightarrow> start q = end' p + timedelta_minutes 1)) ps"
proof (intro exI conjI)
  show r: "fst (calculate_passes self observe years c) =
    Inr (List.map_filter (refine_window self observe) (horizon_windows self observe years c))"
    by (simp add: calculate_passes_scan)
  show "\<forall>p\<in>set (List.map_filter (refine_window self observe)
      (horizon_windows self observe years c)). start p < end' p"
    using emitted_pass(3)[OF r] by blast
  show "sorted_wrt (\<lambda>p q. end' p < start q \<and> closest_time p \<le> closest_time q \<and>
        (closest_time p = closest_time q \<longrightarrow> start q = end' p + timedelta_minutes 1))
     (List.map_filter (refine_window self observe) (horizon_windows self observe years c))"
    by (rule passes_sorted)
qed

theorem passes_ordered_witness:
  "fst (calculate_passes ex_self ex_observe2 (1 / 131400) (sconst 0)) =
     Inr [ex_pass2a, ex_pass2b] \<and>
   start ex_pass2a < end' ex_pass2a \<and> end' ex_pass2a < start ex_pass2b \<and>
   closest_time ex_pass2a = closest_time ex_pass2b \<and>
   start ex_pass2b = end' ex_pass2a + timedelta_minutes 1"
  using passes_ordered[of ex_self ex_observe2 "1 / 131400" "sconst 0"]
  by (simp add: ex_calculate) (simp add: ex_pass2a_def ex_pass2b_def)

text \<open>
  C3. For a candidate window \<open>[start, end)\<close> the fine refiner samples the grid that
  starts one minute before \<open>start\<close>, has one instant per second and covers the interval
  up to one minute after \<open>end\<close>. It returns \<open>None\<close> exactly when the least distance over
  the grid exceeds \<open>max_distance_km\<close>. In a pass it returns, \<open>min_distance\<close> is that least
  distance and at most \<open>max_distance_km\<close>, \<open>closest_time\<close> is the grid instant at the
  first index where the distance is least, and \<open>max_altitude\<close> is the greatest elevation
  over the whole grid.
\<close>

theorem refine_pass_data_contract:
  assumes "start_time < end_time"
  shows
    "length (fine_grid start_time end_time) =
       nat ((end_time - start_time + 2 * timedelta_minutes 1) div timedelta_seconds 1) \<and>
     (\<forall>i<length (fine_grid start_time end_time).
        fine_grid start_time end_time ! i =
          start_time - timedelta_minutes 1 + int i * timedelta_seconds 1) \<and>
     (timedelta_seconds 1 dvd end_time - start_time \<longrightarrow>
        (\<forall>t. t \<in> set (fine_grid start_time end_time) \<longleftrightarrow>
           start_time - timedelta_minutes 1 \<le> t \<and> t < end_time + timedelta_minutes 1 \<and>
           timedelta_seconds 1 dvd t - start_time)) \<and>
     (\<exists>r. refine_pass_data self observe start_time end_time = Inr r) \<and>
     (refine_pass_data self observe start_time end_time = Inr None \<longleftrightarrow>
        max_distance_km self <
          Min ((\<lambda>t. distance_km (observe t)) ` set (fine_grid start_time end_time))) \<and>
     (refine_pass_data self observe start_time end_time = Inr (Some p) \<longrightarrow>
        min_distance p \<le> max_distance_km self \<and>
        min_distance p =
          Min ((\<lambda>t. distance_km (observe t)) ` set (fine_grid start_time end_time)) \<and>
        (\<exists>i<length (fine_grid start_time end_time).
           closest_time p = fine_grid start_time end_time ! i \<and>
           distance_km (observe (fine_grid start_time end_time ! i)) = min_distance p \<and>
           (\<forall>j<i. min_distance p < distance_km (observe (fine_grid start_time end_time ! j)))) \<and>
        max_altitude p =
          Max ((\<lambda>t. alt_degrees (observe t)) ` set (fine_grid start_time end_time)))"
proof (intro conjI impI)
  show "length (fine_grid start_time end_time) =
       nat ((end_time - start_time + 2 * timedelta_minutes 1) div timedelta_seconds 1)"
    by (rule length_fine_grid)
  show "\<forall>i<length (fine_grid start_time end_time).
        fine_grid start_time end_time ! i =
          start_time - timedelta_minutes 1 + int i * timedelta_seconds 1"
    by (simp add: nth_fine_grid)
  show "\<exists>r. refine_pass_data self observe start_time end_time = Inr r"
    by (rule refine_pass_data_total[OF assms])
  show "\<forall>t. t \<in> set (fine_grid start_time end_time) \<longleftrightarrow>
           start_time - timedelta_minutes 1 \<le> t \<and> t < end_time + timedelta_minutes 1 \<and>
           timedelta_seconds 1 dvd t - start_time"
    if "timedelta_seconds 1 dvd end_time - start_time"
    using in_fine_grid_iff[OF that assms] by blast
  show "refine_pass_data self observe start_time end_time = Inr None \<longleftrightarrow>
        max_distance_km self <
          Min ((\<lambda>t. distance_km (observe t)) ` set (fine_grid start_time end_time))"
    by (rule refine_pass_data_None_iff[OF assms])
next
  assume r: "refine_pass_data self observe start_time end_time = Inr (Some p)"
  note S = refine_pass_data_Some[OF assms r]
  show "min_distance p \<le> max_distance_km self" by (rule S(6))
  show "min_distance p =
      Min ((\<lambda>t. distance_km (observe t)) ` set (fine_grid start_time end_time))"
    by (rule S(7))
  show "max_altitude p =
      Max ((\<lambda>t. alt_degrees (observe t)) ` set (fine_grid start_time end_time))"
    by (rule S(9))
  show "\<exists>i<length (fine_grid start_time end_time).
           closest_time p = fine_grid start_time end_time ! i \<and>
           distance_km (observe (fine_grid start_time end_time ! i)) = min_distance p \<and>
           (\<forall>j<i. min_distance p < distance_km (observe (fine_grid start_time end_time ! j)))"
    using S(3,4,5,8) by (intro exI conjI) simp_all
qed

theorem refine_pass_data_contract_witness:
  "(0::int) < 60000000 \<and>
   refine_pass_data ex_self ex_observe 0 60000000 = Inr (Some ex_pass) \<and>
   length (fine_grid 0 60000000) = 180 \<and>
   min_distance ex_pass \<le> max_distance_km ex_self \<and>
   min_distance ex_pass = Min ((\<lambda>t. distance_km (ex_observe t)) ` set (fine_grid 0 60000000)) \<and>
   max_altitude ex_pass = Max ((\<lambda>t. alt_degrees (ex_observe t)) ` set (fine_grid 0 60000000))"
proof -
  have h: "(0::int) < 60000000" by simp
  from refine_pass_data_contract[OF h, of ex_self ex_observe ex_pass] ex_refine
  show ?thesis
    by (simp add: timedelta_minutes_def timedelta_seconds_def)
qed

text \<open>
  C6. As stated (the duration field of an emitted pass equals the number of fine samples
  in range) the claim fails: the method divides the count by 60 and stores minutes. The
  pass of the first concrete run has one sample in range and the duration \<open>1/60\<close>.
\<close>

theorem duration_is_count_counterexample:
  "fst (calculate_passes ex_self ex_observe (1 / 262800) (sconst 0)) = Inr [ex_pass] \<and>
   occupancy ex_self ex_observe (start ex_pass) (end' ex_pass) = 1 \<and>
   duration ex_pass \<noteq> real (occupancy ex_self ex_observe (start ex_pass) (end' ex_pass))"
  by (simp add: ex_calculate) (simp add: ex_pass_def ex_occupancy)

text \<open>
  C6, amended. The \<open>duration\<close> of every emitted pass is the number of instants of the
  padded fine grid of its window whose distance is at most \<open>max_distance_km\<close>
  (inclusive), divided by 60: the occupancy in minutes, not \<open>end - start\<close>.
\<close>

theorem duration_is_occupancy_minutes:
  assumes "fst (calculate_passes self observe years c) = Inr ps" and "p \<in> set ps"
  shows "duration p =
     real (length (filter (\<lambda>t. distance_km (observe t) \<le> max_distance_km self)
       (fine_grid (start p) (end' p)))) / 60 \<and>
     duration p = real (occupancy self observe (start p) (end' p)) / 60"
proof -
  note E = emitted_pass[OF assms]
  have "in_range self observe = (\<lambda>t. distance_km (observe t) \<le> max_distance_km self)"
    by (simp add: fun_eq_iff in_range_def)
  with refine_pass_data_Some(10)[OF E(3) E(2)]
  show ?thesis by (simp add: occupancy_def)
qed

theorem duration_is_occupancy_minutes_witness:
  "fst (calculate_passes ex_self ex_observe (1 / 262800) (sconst 0)) = Inr [ex_pass] \<and>
   ex_pass \<in> set [ex_pass] \<and>
   duration ex_pass = real (occupancy ex_self ex_observe (start ex_pass) (end' ex_pass)) / 60 \<and>
   duration ex_pass = 1 / 60"
proof -
  have r: "fst (calculate_passes ex_self ex_observe (1 / 262800) (sconst 0)) = Inr [ex_pass]"
    by (simp add: ex_calculate)
  have m: "ex_pass \<in> set [ex_pass]" by simp
  from duration_is_occupancy_minutes[OF r m] r show ?thesis
    by (simp add: ex_pass_def)
qed

text \<open>
  C7. The coarse scan visits the ticks one minute apart from the start of the horizon
  (the clock's reading) up to, not including, its end, and is the scanner state machine
  on them: a tick in range (distance at most \<open>max_distance_km\<close>, inclusive) while out of
  a window records the tick as the pending start, a tick out of range while in a window
  closes \<open>[pending, tick)\<close>, and each closed window is handed to the fine refiner, whose
  passes are collected in order.
\<close>

theorem coarse_scan_state_machine:
  "calculate_passes self observe years c =
     (Inr (List.map_filter (refine_window self observe) (horizon_windows self observe years c)),
      stl c) \<and>
   (\<forall>w\<in>set (horizon_windows self observe years c).
      fst w < snd w \<and> in_range self observe (fst w) \<and> \<not> in_range self observe (snd w) \<and>
      fst w \<in> set (coarse_ticks (shd c) (shd c + timedelta_days (365 * years))) \<and>
      snd w \<in> set (coarse_ticks (shd c) (shd c + timedelta_days (365 * years))) \<and>
      refine_pass_data self observe (fst w) (snd w) = Inr (refine_window self observe w)) \<and>
   sorted_wrt (\<lambda>w1 w2. snd w1 < fst w2) (horizon_windows self observe years c) \<and>
   (\<forall>t. t \<in> set (coarse_ticks (shd c) (shd c + timedelta_days (365 * years))) \<longleftrightarrow>
      shd c \<le> t \<and> t < shd c + timedelta_days (365 * years) \<and>
      timedelta_minutes 1 dvd t - shd c) \<and>
   (\<forall>t. in_range self observe t \<longleftrightarrow> distance_km (observe t) \<le> max_distance_km self)"
proof (intro conjI ballI allI)
  show "calculate_passes self observe years c =
     (Inr (List.map_filter (refine_window self observe) (horizon_windows self observe years c)),
      stl c)"
    by (rule calculate_passes_scan)
  show "sorted_wrt (\<lambda>w1 w2. snd w1 < fst w2) (horizon_windows self observe years c)"
    by (rule coarse_windows_props(2))
next
  fix w
  assume w: "w \<in> set (horizon_windows self observe years c)"
  note W = window_lattice[OF w]
  show "fst w < snd w" "in_range self observe (fst w)" "\<not> in_range self observe (snd w)"
    by (rule W(1) W(7) W(8))+
  show "fst w \<in> set (coarse_ticks (shd c) (shd c + timedelta_days (365 * years)))"
    "snd w \<in> set (coarse_ticks (shd c) (shd c + timedelta_days (365 * years)))"
    using coarse_windows_props(1)[OF w] by simp_all
  show "refine_pass_data self observe (fst w) (snd w) = Inr (refine_window self observe w)"
    using refine_window_eq[OF W(1), of self observe] by simp
next
  fix t
  show "t \<in> set (coarse_ticks (shd c) (shd c + timedelta_days (365 * years))) \<longleftrightarrow>
      shd c \<le> t \<and> t < shd c + timedelta_days (365 * years) \<and>
      timedelta_minutes 1 dvd t - shd c"
    by (rule in_coarse_ticks_iff)
  show "in_range self observe t \<longleftrightarrow> distance_km (observe t) \<le> max_distance_km self"
    by (rule in_range_def)
qed

theorem coarse_scan_state_machine_witness:
  "horizon_windows ex_self ex_observe2 (1 / 131400) (sconst 0) =
     [(0, 60000000), (120000000, 180000000)] \<and>
   refine_pass_data ex_self ex_observe2 120000000 180000000 =
     Inr (refine_window ex_self ex_observe2 (120000000, 180000000)) \<and>
   in_range ex_self ex_observe2 120000000 \<and> \<not> in_range ex_self ex_observe2 180000000 \<and>
   calculate_passes ex_self ex_observe2 (1 / 131400) (sconst 0) =
     (Inr (List.map_filter (refine_window ex_self ex_observe2)
        [(0, 60000000), (120000000, 180000000)]), sconst 0)"
proof -
  have "coarse_ticks (shd (sconst 0)) (shd (sconst 0) + timedelta_days (365 * (1 / 131400))) =
     [0, 60000000, 120000000, 180000000]"
    by (simp add: ex_horizon ex_ticks)
  then have w: "horizon_windows ex_self ex_observe2 (1 / 131400) (sconst 0) =
     [(0, 60000000), (120000000, 180000000)]"
    by (simp only: ex_windows2)
  note T = coarse_scan_state_machine[of ex_self ex_observe2 "1 / 131400" "sconst 0"]
  from T have c: "calculate_passes ex_self ex_observe2 (1 / 131400) (sconst 0) =
     (Inr (List.map_filter (refine_window ex_self ex_observe2)
        (horizon_windows ex_self ex_observe2 (1 / 131400) (sconst 0))), stl (sconst 0))"
    by (rule conjunct1)
  have m: "(120000000, 180000000) \<in> set (horizon_windows ex_self ex_observe2 (1 / 131400) (sconst 0))"
    unfolding w by simp
  from T have "\<forall>w\<in>set (horizon_windows ex_self ex_observe2 (1 / 131400) (sconst 0)).
      fst w < snd w \<and> in_range ex_self ex_observe2 (fst w) \<and>
      \<not> in_range ex_self ex_observe2 (snd w) \<and>
      fst w \<in> set (coarse_ticks (shd (sconst 0))
        (shd (sconst 0) + timedelta_days (365 * (1 / 131400)))) \<and>
      snd w \<in> set (coarse_ticks (shd (sconst 0))
        (shd (sconst 0) + timedelta_days (365 * (1 / 131400)))) \<and>
      refine_pass_data ex_self ex_observe2 (fst w) (snd w) =
        Inr (refine_window ex_self ex_observe2 w)"
    by blast
  from bspec[OF this m]
  have "in_range ex_self ex_observe2 120000000 \<and> \<not> in_range ex_self ex_observe2 180000000 \<and>
      refine_pass_data ex_self ex_observe2 120000000 180000000 =
        Inr (refine_window ex_self ex_observe2 (120000000, 180000000))"
    by simp
  moreover from c have "calculate_passes ex_self ex_observe2 (1 / 131400) (sconst 0) =
     (Inr (List.map_filter (refine_window ex_self ex_observe2)
        [(0, 60000000), (120000000, 180000000)]), sconst 0)"
    unfolding w by simp
  ultimately show ?thesis using w by blast
qed

text \<open>
  C8. If from some tick \<open>a\<close> on every tick of the horizon is in range, so that the scan
  is still inside a window when the horizon ends, the search returns what the loop
  returns when it stops at \<open>a\<close>: the window open at the end is not handed to the fine
  refiner and adds no pass, and no error is raised. Every emitted pass has a window that
  was closed before \<open>a\<close>.
\<close>

theorem trailing_window_discarded:
  assumes "a \<in> set (coarse_ticks (shd c) (shd c + timedelta_days (365 * years)))"
    and "\<forall>t\<in>set (coarse_ticks (shd c) (shd c + timedelta_days (365 * years))).
           a \<le> t \<longrightarrow> in_range self observe t"
  shows "fst (calculate_passes self observe years c) =
       coarse_loop self observe a (shd c) None False [] \<and>
     (\<exists>ps. fst (calculate_passes self observe years c) = Inr ps \<and>
        (\<forall>p\<in>set ps. end' p < a))"
proof -
  let ?e = "shd c + timedelta_days (365 * years)"
  let ?cut = "scan_windows (in_range self observe) (coarse_ticks (shd c) a) False None"
  have cut: "horizon_windows self observe years c = ?cut"
    by (rule scan_windows_trailing[OF assms])
  have r: "fst (calculate_passes self observe years c) =
      Inr (List.map_filter (refine_window self observe) ?cut)"
    by (simp add: calculate_passes_scan cut)
  have "coarse_loop self observe a (shd c) None False [] =
      Inr (List.map_filter (refine_window self observe) ?cut)"
    by (simp add: coarse_loop_scan)
  with r have eq: "fst (calculate_passes self observe years c) =
       coarse_loop self observe a (shd c) None False []"
    by simp
  have "end' p < a" if "p \<in> set (List.map_filter (refine_window self observe) ?cut)" for p
  proof -
    from that obtain w where w: "w \<in> set ?cut" "refine_window self observe w = Some p"
      by (auto simp: set_map_filter)
    note W = window_lattice[OF w(1)]
    from refine_window_eq[OF W(1), of self observe] w(2)
    have "refine_pass_data self observe (fst w) (snd w) = Inr (Some p)" by simp
    from refine_pass_data_Some(2)[OF W(1) this] W(6) show ?thesis by simp
  qed
  with r eq show ?thesis by blast
qed

theorem trailing_window_discarded_witness:
  "120000000 \<in> set (coarse_ticks 0 240000000) \<and>
   in_range ex_self ex_observe3 120000000 \<and> in_range ex_self ex_observe3 180000000 \<and>
   fst (calculate_passes ex_self ex_observe3 (1 / 131400) (sconst 0)) =
     coarse_loop ex_self ex_observe3 120000000 0 None False [] \<and>
   fst (calculate_passes ex_self ex_observe3 (1 / 131400) (sconst 0)) = Inr [ex_pass3] \<and>
   end' ex_pass3 < 120000000"
proof -
  have a: "120000000 \<in> set (coarse_ticks (shd (sconst 0))
      (shd (sconst 0) + timedelta_days (365 * (1 / 131400))))"
    by (simp add: ex_horizon ex_ticks)
  have b: "\<forall>t\<in>set (coarse_ticks (shd (sconst 0))
      (shd (sconst 0) + timedelta_days (365 * (1 / 131400)))).
        120000000 \<le> t \<longrightarrow> in_range ex_self ex_observe3 t"
    by (simp add: ex_horizon ex_ticks in_range_def ex_self_def ex_observe3_def)
  from trailing_window_discarded[OF a b]
  have e: "fst (calculate_passes ex_self ex_observe3 (1 / 131400) (sconst 0)) =
      coarse_loop ex_self ex_observe3 120000000 (shd (sconst 0)) None False []"
    by (rule conjunct1)
  have i: "in_range ex_self ex_observe3 120000000" "in_range ex_self ex_observe3 180000000"
    by (simp_all add: in_range_def ex_self_def ex_observe3_def)
  from e i show ?thesis
    by (simp add: ex_ticks ex_calculate ex_loop3_cut ex_pass3_def)
qed

end
